theory Spec2Isabelle
  imports Complex_Main
begin

section \<open>The real-time synthesizer of Loris (RealtimeSynthesizer.cpp)\<close>

text \<open>
  A shallow embedding of \<^verbatim>\<open>RealTimeSynthesizer\<close>: \<^verbatim>\<open>setup\<close>, \<^verbatim>\<open>reset\<close>,
  \<^verbatim>\<open>setSampleRate\<close>, \<^verbatim>\<open>synthesizeNext\<close> and \<^verbatim>\<open>synthesize\<close>.

  Conventions of the embedding.
  \<^item> A C++ \<^verbatim>\<open>double\<close> or \<^verbatim>\<open>float\<close> is a \<^typ>\<open>real\<close>: the arithmetic is exact, rounding
    is not modelled.
  \<^item> A C++ \<^verbatim>\<open>int\<close> has 32 bits and is an \<^typ>\<open>int\<close> between \<open>-2^31\<close> and \<open>2^31 - 1\<close>: a
    conversion to \<^verbatim>\<open>int\<close> wraps (\<open>to_int\<close>), and an \<^verbatim>\<open>int\<close> operation whose result leaves
    the range is undefined (\<open>int_result\<close>).
  \<^item> A pointer into the vector \<^verbatim>\<open>partials\<close> is the index of the element: the vector is
    only resized by \<^verbatim>\<open>setup\<close>, which also empties the queue of pointers.
  \<^item> What the C++ leaves undefined (a read past the end of \<^verbatim>\<open>breakpoints\<close>, a
    \<^verbatim>\<open>memset\<close> past the allocation, a range outside the window, a signed overflow,
    a \<^verbatim>\<open>double\<close> converted to an unsigned type that cannot hold it) is a \<open>failure\<close>
    value of the model.
\<close>

subsection \<open>Data\<close>

text \<open>\<^verbatim>\<open>Breakpoint\<close>: the four envelope parameters (\<^verbatim>\<open>_frequency\<close>, \<^verbatim>\<open>_amplitude\<close>,
  \<^verbatim>\<open>_bandwidth\<close>, \<^verbatim>\<open>_phase\<close>); the time of a breakpoint is kept beside it, in a pair.\<close>

record Breakpoint =
  frequency :: real
  amplitude :: real
  bandwidth :: real
  phase :: real

text \<open>\<^verbatim>\<open>PartialStruct::SynthesizerState\<close> and \<^verbatim>\<open>PartialStruct\<close> (RealtimeSynthesizer.h).\<close>

record SynthesizerState =
  currentSamp :: int
  lastBreakpointIdx :: int
  envelope :: Breakpoint
  prevFrequency :: real

record PartialStruct =
  startTime :: real
  endTime :: real
  numBreakpoints :: int
  breakpoints :: "(real \<times> Breakpoint) list"
  state :: SynthesizerState

text \<open>\<^verbatim>\<open>enum { NoBreakpointProcessed = 0, FirstBreakpoint }\<close>\<close>

definition NoBreakpointProcessed :: int where
  "NoBreakpointProcessed = 0"

text \<open>The caller's \<^verbatim>\<open>std::vector<float>\<close>: its \<^verbatim>\<open>size()\<close> and the allocated cells
  (\<^verbatim>\<open>capacity()\<close> of them, from \<^verbatim>\<open>data()\<close> on).\<close>

record Buffer =
  vsize :: nat
  storage :: "real list"

definition capacity :: "Buffer \<Rightarrow> nat" where
  "capacity b = length (storage b)"

text \<open>The members of \<^verbatim>\<open>RealTimeSynthesizer\<close> (with \<^verbatim>\<open>m_srateHz\<close> and \<^verbatim>\<open>m_fadeTimeSec\<close>
  of its base class). \<open>'o\<close> is the state of the oscillator \<^verbatim>\<open>m_osc\<close>.\<close>

record 'o RealTimeSynthesizer =
  m_srateHz :: real
  m_fadeTimeSec :: real
  OneOverSrate :: real
  pitch :: real
  m_osc :: 'o
  partials :: "PartialStruct list"
  partialIdx :: int
  processedSamples :: int
  partialsBeingProcessed :: "nat list"
  buffer :: Buffer

text \<open>\<^verbatim>\<open>const double Pi = 3.14159265358979324;\<close> (RealtimeSynthesizer.h), as the exact
  decimal.\<close>

definition Pi :: real where
  "Pi = 314159265358979324 / 100000000000000000"

subsection \<open>Collaborators that are not part of the translated files\<close>

text \<open>Modelled from the spec: the class \<^verbatim>\<open>Partial\<close> (Partial.h is missing). A Source Partial
  is "an ordered sequence of Breakpoints", each with its time; its start and end are the
  times of its first and last breakpoint.\<close>

type_synonym Partial = "(real \<times> Breakpoint) list"

definition Partial_numBreakpoints :: "Partial \<Rightarrow> int" where
  "Partial_numBreakpoints it = int (length it)"

definition Partial_startTime :: "Partial \<Rightarrow> real" where
  "Partial_startTime it = fst (hd it)"

definition Partial_endTime :: "Partial \<Rightarrow> real" where
  "Partial_endTime it = fst (last it)"

text \<open>Modelled from the spec: \<^verbatim>\<open>BreakpointUtils::makeNullBefore\<close> and \<^verbatim>\<open>makeNullAfter\<close>
  (BreakpointUtils.h is missing). "Given a real breakpoint and a time offset, produces a
  zero-amplitude breakpoint consistent in frequency/phase": the frequency is kept and the
  phase is moved back, or forward, by what that frequency turns in the offset.\<close>

definition makeNullBefore :: "Breakpoint \<Rightarrow> real \<Rightarrow> Breakpoint" where
  "makeNullBefore bp fadeTime =
     bp\<lparr>amplitude := 0, phase := phase bp - 2 * Pi * fadeTime * frequency bp\<rparr>"

definition makeNullAfter :: "Breakpoint \<Rightarrow> real \<Rightarrow> Breakpoint" where
  "makeNullAfter bp fadeTime =
     bp\<lparr>amplitude := 0, phase := phase bp + 2 * Pi * fadeTime * frequency bp\<rparr>"

text \<open>The oscillator \<^verbatim>\<open>RealtimeOscillator\<close> (RealtimeOscillator.h is missing) is a parameter
  of the model: the operations \<^verbatim>\<open>synthesize\<close> calls on \<^verbatim>\<open>m_osc\<close>, as functions on the
  oscillator's state \<open>'o\<close>. \<open>oscillate n bp srate\<close> returns the \<open>n\<close> samples that
  \<^verbatim>\<open>m_osc.oscillate(buffer, buffer + n, bp, srate)\<close> accumulates into the window ("rendering
  bandwidth-enhanced Partials as floating point samples ... and accumulating them into a
  buffer", RealtimeSynthesizer.h).\<close>

record 'o Oscillator =
  resetEnvelopes :: "Breakpoint \<Rightarrow> real \<Rightarrow> 'o \<Rightarrow> 'o"
  restoreEnvelopes :: "Breakpoint \<Rightarrow> 'o \<Rightarrow> 'o"
  setPhase :: "real \<Rightarrow> 'o \<Rightarrow> 'o"
  oscillate :: "nat \<Rightarrow> Breakpoint \<Rightarrow> real \<Rightarrow> 'o \<Rightarrow> real list \<times> 'o"
  osc_amplitude :: "'o \<Rightarrow> real"
  osc_phase :: "'o \<Rightarrow> real"
  envelopes :: "'o \<Rightarrow> Breakpoint"

subsection \<open>setup, reset, setSampleRate\<close>

text \<open>A default-constructed \<^verbatim>\<open>PartialStruct::SynthesizerState\<close>. \<^verbatim>\<open>prevFrequency\<close> has no
  initialiser in the header; it is written on activation before it is read, and stands
  as 0 here.\<close>

definition initial_state :: SynthesizerState where
  "initial_state =
     \<lparr>currentSamp = 0, lastBreakpointIdx = NoBreakpointProcessed,
      envelope = \<lparr>frequency = 0, amplitude = 0, bandwidth = 0, phase = 0\<rparr>,
      prevFrequency = 0\<rparr>"

text \<open>The body of the loop of \<^verbatim>\<open>setup\<close> for a partial \<open>it\<close> that has breakpoints
  (lines 99 to 117): the \<^verbatim>\<open>PartialStruct\<close> that is pushed.\<close>

definition setup_partial :: "real \<Rightarrow> Partial \<Rightarrow> PartialStruct" where
  "setup_partial fadeTimeSec it =
     (let start = (if fadeTimeSec < Partial_startTime it
                   then Partial_startTime it - fadeTimeSec else 0)
      in \<lparr>startTime = start,
          endTime = Partial_endTime it + fadeTimeSec,
          numBreakpoints = Partial_numBreakpoints it + 2,
          breakpoints =
            (start, makeNullBefore (snd (hd it)) (Partial_startTime it - start))
              # it
              @ [(fst (last it) + fadeTimeSec, makeNullAfter (snd (last it)) fadeTimeSec)],
          state = initial_state\<rparr>)"

text \<open>The loop of \<^verbatim>\<open>setup\<close> over the partial list; \<open>acc\<close> is \<^verbatim>\<open>this->partials\<close>.\<close>

fun setup_loop :: "real \<Rightarrow> Partial list \<Rightarrow> PartialStruct list \<Rightarrow> PartialStruct list" where
  "setup_loop fadeTimeSec [] acc = acc"
| "setup_loop fadeTimeSec (it # its) acc =
     (if Partial_numBreakpoints it \<le> 0 then setup_loop fadeTimeSec its acc
      else setup_loop fadeTimeSec its (acc @ [setup_partial fadeTimeSec it]))"

definition reset :: "'o RealTimeSynthesizer \<Rightarrow> 'o RealTimeSynthesizer" where
  "reset s = s\<lparr>partialIdx := 0, processedSamples := 0, partialsBeingProcessed := []\<rparr>"

text \<open>\<^verbatim>\<open>RealTimeSynthesizer::setup\<close> (the bare name is a keyword of Isabelle).\<close>

definition rts_setup :: "Partial list \<Rightarrow> real \<Rightarrow> 'o RealTimeSynthesizer \<Rightarrow> 'o RealTimeSynthesizer" where
  "rts_setup ps pitch0 s =
     reset (s\<lparr>partials := setup_loop (m_fadeTimeSec s) ps [],
              pitch := pitch0,
              partialsBeingProcessed := []\<rparr>)"

definition setSampleRate :: "real \<Rightarrow> 'o RealTimeSynthesizer \<Rightarrow> 'o RealTimeSynthesizer" where
  "setSampleRate rate s = s\<lparr>m_srateHz := rate, OneOverSrate := 1 / rate\<rparr>"

subsection \<open>synthesize\<close>

text \<open>What the model reports where the C++ has no defined behaviour, or is terminated:
  a read of \<^verbatim>\<open>breakpoints[i]\<close> (or through a queued pointer) outside the vector; the
  \<^verbatim>\<open>memset\<close> of \<^verbatim>\<open>synthesizeNext\<close> running past the allocation; an exception leaving a
  \<^verbatim>\<open>noexcept\<close> function; a \<^verbatim>\<open>double\<close> converted to \<^verbatim>\<open>unsigned long\<close> that is not in
  its range; an \<^verbatim>\<open>int\<close> operation that overflows; and a range
  \<^verbatim>\<open>[buffer, buffer + sampleDiff)\<close> of \<^verbatim>\<open>synthesize\<close> that is not a range of the window.\<close>

datatype failure =
  OutOfRangeRead | BufferOverrun | Terminated | UndefinedConversion | SignedOverflow
  | InvalidRange

text \<open>The conversion of an integer value to \<^verbatim>\<open>int\<close> (the value modulo \<open>2^32\<close>, in the
  range of \<^verbatim>\<open>int\<close>), and the result of an \<^verbatim>\<open>int\<close> operation whose exact value is \<open>x\<close>.\<close>

definition to_int :: "int \<Rightarrow> int" where
  "to_int x = (x + 2147483648) mod 4294967296 - 2147483648"

definition int_result :: "int \<Rightarrow> failure + int" where
  "int_result x =
     (if - 2147483648 \<le> x \<and> x \<le> 2147483647 then Inr x else Inl SignedOverflow)"

text \<open>\<^verbatim>\<open>index_type( x )\<close> for a \<^verbatim>\<open>double\<close> \<open>x\<close>, with \<^verbatim>\<open>index_type\<close> the type
  \<^verbatim>\<open>unsigned long\<close>: the conversion truncates towards zero and is undefined when the
  truncated value is not in the range of the type. \<^verbatim>\<open>unsigned long\<close> has 32 bits on some
  of the platforms and 64 on others; the model describes the conversions that are defined
  on all of them. The argument is the exact value of \<^verbatim>\<open>(t * m_srateHz) + 0.5\<close>, which the
  code rounds to a \<^verbatim>\<open>double\<close> twice.\<close>

definition index_type :: "real \<Rightarrow> failure + int" where
  "index_type x =
     (if - 1 < x \<and> x < 4294967296 then Inr (if 0 \<le> x then \<lfloor>x\<rfloor> else 0)
      else Inl UndefinedConversion)"

text \<open>The oscillator adds a sample to each of the \<open>n\<close> cells of the range
  \<^verbatim>\<open>[buffer, buffer + n)\<close>, which are the cells of the window \<open>w\<close> from \<open>off\<close> on:
  \<open>xs ! k\<close> is the sample for the cell \<open>k\<close> of the range. (In \<open>segment\<close> the range
  lies in the window.)\<close>

definition accumulate :: "nat \<Rightarrow> nat \<Rightarrow> real list \<Rightarrow> real list \<Rightarrow> real list" where
  "accumulate off n xs w =
     map (\<lambda>j. w ! j + (if off \<le> j \<and> j < off + n \<and> j - off < length xs
                          then xs ! (j - off) else 0))
       [0..<length w]"

text \<open>The variables of the loop of \<^verbatim>\<open>synthesize\<close>: \<^verbatim>\<open>i\<close>, \<^verbatim>\<open>sampleCounter\<close>, how far the
  pointer \<^verbatim>\<open>buffer\<close> has moved, the partial \<^verbatim>\<open>p\<close>, the oscillator and the window.\<close>

record 'o SynthLoop =
  idx :: int
  sampleCounter :: int
  bufOffset :: int
  part :: PartialStruct
  osc_st :: 'o
  window :: "real list"

text \<open>Lines 261 to 271 of a pass at \<^verbatim>\<open>i = idx l\<close>: the values of \<^verbatim>\<open>sampleDiff\<close>,
  \<^verbatim>\<open>sampleCounter\<close> and \<^verbatim>\<open>i\<close> after the test of the budget. \<^verbatim>\<open>tgtSamp - p.state.currentSamp\<close>
  is an unsigned difference that the assignment to the \<^verbatim>\<open>int\<close> \<^verbatim>\<open>sampleDiff\<close> converts.\<close>

definition clip_span :: "real \<Rightarrow> int \<Rightarrow> 'o SynthLoop \<Rightarrow> failure + (int \<times> int \<times> int)" where
  "clip_span srateHz samples l =
     (let p = part l; i = idx l in
      if \<not> (0 \<le> i \<and> i < int (length (breakpoints p))) then Inl OutOfRangeRead
      else
        case index_type (fst (breakpoints p ! nat i) * srateHz + 1 / 2) of
          Inl e \<Rightarrow> Inl e
        | Inr tgtSamp \<Rightarrow>
            let sampleDiff0 = to_int (tgtSamp - currentSamp (state p)) in
            case int_result (sampleCounter l + sampleDiff0) of
              Inl e \<Rightarrow> Inl e
            | Inr sampleCounter0 \<Rightarrow>
                if samples < sampleCounter0 then
                  (case int_result (sampleCounter0 - samples) of
                     Inl e \<Rightarrow> Inl e
                   | Inr over \<Rightarrow>
                       (case int_result (sampleDiff0 - over) of
                          Inl e \<Rightarrow> Inl e
                        | Inr sampleDiff \<Rightarrow> Inr (sampleDiff, samples, i - 1)))
                else Inr (sampleDiff0, sampleCounter0, i))"

text \<open>Lines 279 to 292: the oscillator before it renders a span of \<open>sampleDiff\<close> samples
  towards \<open>bp\<close>.\<close>

definition phase_reset ::
  "'o Oscillator \<Rightarrow> real \<Rightarrow> PartialStruct \<Rightarrow> Breakpoint \<Rightarrow> int \<Rightarrow> 'o \<Rightarrow> 'o" where
  "phase_reset osc oneOverSrate p bp sampleDiff oscst =
     (if osc_amplitude osc oscst = 0
      then setPhase osc
             (phase bp
              - Pi * (prevFrequency (state p) + frequency bp)
                * real_of_int sampleDiff * oneOverSrate)
             oscst
      else oscst)"

text \<open>One pass through the body of the loop (lines 261 to 304), at \<^verbatim>\<open>i = idx l\<close>. The
  oscillator is given the range \<^verbatim>\<open>[buffer, buffer + sampleDiff)\<close> to fill, and \<^verbatim>\<open>buffer\<close>
  moves to its end: the pass has a defined result when this is a range of the window, of
  \<^verbatim>\<open>sampleDiff\<close> cells from the cell \<open>bufOffset l\<close> on.\<close>

definition segment ::
  "'o Oscillator \<Rightarrow> real \<Rightarrow> real \<Rightarrow> int \<Rightarrow> 'o SynthLoop \<Rightarrow> failure + 'o SynthLoop" where
  "segment osc srateHz oneOverSrate samples l =
     (case clip_span srateHz samples l of
        Inl e \<Rightarrow> Inl e
      | Inr (sampleDiff, sampleCounter1, i1) \<Rightarrow>
          let p = part l in
          if \<not> (0 \<le> i1) then Inl OutOfRangeRead
          else if \<not> (0 \<le> bufOffset l \<and> 0 \<le> sampleDiff
                      \<and> bufOffset l + sampleDiff \<le> int (length (window l)))
          then Inl InvalidRange
          else
            let bp = snd (breakpoints p ! nat i1);
                o1 = phase_reset osc oneOverSrate p bp sampleDiff (osc_st l);
                (smps, o2) = oscillate osc (nat sampleDiff) bp srateHz o1;
                bp1 = bp\<lparr>phase := osc_phase osc o2\<rparr>
            in case int_result (currentSamp (state p) + sampleDiff) of
                 Inl e \<Rightarrow> Inl e
               | Inr currentSamp1 \<Rightarrow>
                   Inr \<lparr>idx = i1, sampleCounter = sampleCounter1,
                        bufOffset = bufOffset l + sampleDiff,
                        part = p\<lparr>breakpoints :=
                                   (breakpoints p)
                                     [nat i1 := (fst (breakpoints p ! nat i1), bp1)],
                                 state :=
                                   (state p)\<lparr>prevFrequency := frequency bp,
                                             lastBreakpointIdx := i1,
                                             currentSamp := currentSamp1\<rparr>\<rparr>,
                        osc_st = o2,
                        window = accumulate (nat (bufOffset l)) (nat sampleDiff) smps
                                   (window l)\<rparr>)"

lemma clip_span_cases:
  assumes "clip_span srateHz samples l = Inr (sampleDiff, sampleCounter1, i1)"
  shows "(sampleCounter1 = samples \<and> i1 = idx l - 1) \<or> (sampleCounter1 \<le> samples \<and> i1 = idx l)"
  using assms
  by (auto simp: clip_span_def Let_def int_result_def split: if_splits sum.splits)

lemma segment_continues:
  assumes "segment osc srateHz oneOverSrate samples l = Inr l'"
    and "\<not> samples \<le> sampleCounter l'"
  shows "idx l' = idx l \<and> numBreakpoints (part l') = numBreakpoints (part l)"
proof -
  obtain sampleDiff sampleCounter1 i1
    where c: "clip_span srateHz samples l = Inr (sampleDiff, sampleCounter1, i1)"
    using assms(1) by (auto simp: segment_def split: sum.splits)
  have "idx l' = i1 \<and> sampleCounter l' = sampleCounter1
        \<and> numBreakpoints (part l') = numBreakpoints (part l)"
    using assms(1) c
    by (auto simp: segment_def Let_def split: if_splits sum.splits prod.splits)
  then show ?thesis
    using clip_span_cases[OF c] assms(2) by auto
qed

text \<open>The loop: \<^verbatim>\<open>for (i = ...; i < p.numBreakpoints; ++i)\<close> with its
  \<^verbatim>\<open>if (sampleCounter >= samples) break;\<close>.\<close>

function segments ::
  "'o Oscillator \<Rightarrow> real \<Rightarrow> real \<Rightarrow> int \<Rightarrow> 'o SynthLoop \<Rightarrow> failure + 'o SynthLoop" where
  "segments osc srateHz oneOverSrate samples l =
     (if idx l < numBreakpoints (part l) then
        (case segment osc srateHz oneOverSrate samples l of
           Inl e \<Rightarrow> Inl e
         | Inr l' \<Rightarrow>
             if samples \<le> sampleCounter l' then Inr l'
             else segments osc srateHz oneOverSrate samples (l'\<lparr>idx := idx l' + 1\<rparr>))
      else Inr l)"
  by pat_completeness auto
termination
proof (relation "measure (\<lambda>(osc, srateHz, oneOverSrate, samples, l).
                    nat (numBreakpoints (part l) - idx l))", goal_cases)
  case 1
  show ?case by simp
next
  case (2 osc srateHz oneOverSrate samples l l')
  from segment_continues[OF 2(2) 2(3)] 2(1) show ?case by simp
qed

declare segments.simps [simp del]

text \<open>\<^verbatim>\<open>synthesize( p, buffer, samples )\<close>, on the partial, the oscillator \<^verbatim>\<open>m_osc\<close> and the
  window it touches.\<close>

definition synthesize ::
  "'o Oscillator \<Rightarrow> real \<Rightarrow> real \<Rightarrow> PartialStruct \<Rightarrow> int \<Rightarrow> 'o \<Rightarrow> real list
     \<Rightarrow> failure + (PartialStruct \<times> 'o \<times> real list)" where
  "synthesize osc srateHz oneOverSrate p samples oscst w =
     (if numBreakpoints p \<le> 0 \<or> startTime p < 0 then Inr (p, oscst, w)
      else if numBreakpoints p - 1 \<le> lastBreakpointIdx (state p) then Inr (p, oscst, w)
      else
        let o0 = (if lastBreakpointIdx (state p) = NoBreakpointProcessed
                  then resetEnvelopes osc (envelope (state p)) srateHz oscst
                  else restoreEnvelopes osc (envelope (state p)) oscst)
        in case segments osc srateHz oneOverSrate samples
                  \<lparr>idx = lastBreakpointIdx (state p) + 1, sampleCounter = 0, bufOffset = 0,
                   part = p, osc_st = o0, window = w\<rparr> of
             Inl e \<Rightarrow> Inl e
           | Inr l \<Rightarrow>
               Inr ((part l)\<lparr>state := (state (part l))\<lparr>envelope := envelopes osc (osc_st l)\<rparr>\<rparr>,
                    osc_st l, window l))"

text \<open>\<^verbatim>\<open>synthesize( *partial, buffer->data(), samples )\<close> with \<^verbatim>\<open>partial\<close> the address of
  \<^verbatim>\<open>partials[k]\<close>: the call on the members of the synthesizer.\<close>

definition synthesize_at ::
  "'o Oscillator \<Rightarrow> nat \<Rightarrow> int \<Rightarrow> 'o RealTimeSynthesizer \<Rightarrow> failure + 'o RealTimeSynthesizer" where
  "synthesize_at osc k samples s =
     (if length (partials s) \<le> k then Inl OutOfRangeRead
      else
        case synthesize osc (m_srateHz s) (OneOverSrate s) (partials s ! k) samples (m_osc s)
               (storage (buffer s)) of
          Inl e \<Rightarrow> Inl e
        | Inr (p, oscst, w) \<Rightarrow>
            Inr (s\<lparr>partials := (partials s)[k := p], m_osc := oscst,
                   buffer := (buffer s)\<lparr>storage := w\<rparr>\<rparr>))"

subsection \<open>synthesizeNext\<close>

text \<open>\<^verbatim>\<open>partial->state.lastBreakpointIdx < partial->numBreakpoints - 1\<close>: the test before
  each \<^verbatim>\<open>partialsBeingProcessed.push( partial )\<close>.\<close>

definition unfinished :: "PartialStruct \<Rightarrow> bool" where
  "unfinished p = (lastBreakpointIdx (state p) < numBreakpoints p - 1)"

text \<open>The first loop of \<^verbatim>\<open>synthesizeNext\<close> (lines 188 to 198), with \<open>n\<close> passes left:
  \<^verbatim>\<open>front()\<close> is the head of the list, \<^verbatim>\<open>push\<close> appends, \<^verbatim>\<open>pop\<close> drops the head.\<close>

fun resume_active ::
  "'o Oscillator \<Rightarrow> int \<Rightarrow> nat \<Rightarrow> 'o RealTimeSynthesizer \<Rightarrow> failure + 'o RealTimeSynthesizer" where
  "resume_active osc samples 0 s = Inr s"
| "resume_active osc samples (Suc n) s =
     (case partialsBeingProcessed s of
        [] \<Rightarrow> Inl OutOfRangeRead
      | k # rest \<Rightarrow>
          (case synthesize_at osc k samples s of
             Inl e \<Rightarrow> Inl e
           | Inr s1 \<Rightarrow>
               let q = (if unfinished (partials s1 ! k)
                        then partialsBeingProcessed s1 @ [k]
                        else partialsBeingProcessed s1)
               in resume_active osc samples n (s1\<lparr>partialsBeingProcessed := tl q\<rparr>)))"

lemma synthesize_at_frame:
  assumes "synthesize_at osc k samples s = Inr s1"
  shows "length (partials s1) = length (partials s) \<and> partialIdx s1 = partialIdx s
         \<and> processedSamples s1 = processedSamples s
         \<and> partialsBeingProcessed s1 = partialsBeingProcessed s
         \<and> m_srateHz s1 = m_srateHz s \<and> OneOverSrate s1 = OneOverSrate s
         \<and> m_fadeTimeSec s1 = m_fadeTimeSec s \<and> pitch s1 = pitch s
         \<and> vsize (buffer s1) = vsize (buffer s)"
  using assms
  by (auto simp: synthesize_at_def split: if_splits sum.splits)

text \<open>The second loop of \<^verbatim>\<open>synthesizeNext\<close> (lines 201 to 222):
  \<^verbatim>\<open>for (; partialIdx < partialSize; partialIdx++)\<close>. Line 207 converts the
  \<^verbatim>\<open>unsigned long\<close> start sample to the \<^verbatim>\<open>int\<close> \<^verbatim>\<open>currentSamp\<close>.\<close>

function activate_due ::
  "'o Oscillator \<Rightarrow> int \<Rightarrow> 'o RealTimeSynthesizer \<Rightarrow> failure + 'o RealTimeSynthesizer" where
  "activate_due osc samples s =
     (if partialIdx s < int (length (partials s)) then
        if partialIdx s < 0 then Inl OutOfRangeRead
        else
          let k = nat (partialIdx s);
              p = partials s ! k
          in
            case index_type (startTime p * m_srateHz s + 1 / 2) of
              Inl e \<Rightarrow> Inl e
            | Inr start \<Rightarrow>
                let p1 = p\<lparr>state := (state p)\<lparr>currentSamp := to_int start\<rparr>\<rparr> in
                if processedSamples s < currentSamp (state p1)
                then Inr (s\<lparr>partials := (partials s)[k := p1]\<rparr>)
                else if length (breakpoints p1) < 2 then Inl OutOfRangeRead
                else
                  let p2 = p1\<lparr>state := (state p1)
                               \<lparr>lastBreakpointIdx := NoBreakpointProcessed,
                                envelope := snd (breakpoints p1 ! 0),
                                prevFrequency := frequency (snd (breakpoints p1 ! 1))\<rparr>\<rparr>
                  in case synthesize_at osc k samples
                            (s\<lparr>partials := (partials s)[k := p2]\<rparr>) of
                       Inl e \<Rightarrow> Inl e
                     | Inr s1 \<Rightarrow>
                         let s2 = (if unfinished (partials s1 ! k)
                                   then s1\<lparr>partialsBeingProcessed :=
                                            partialsBeingProcessed s1 @ [k]\<rparr>
                                   else s1)
                         in activate_due osc samples (s2\<lparr>partialIdx := partialIdx s2 + 1\<rparr>)
      else Inr s)"
  by pat_completeness auto
termination
proof (relation "measure (\<lambda>(osc, samples, s). nat (int (length (partials s)) - partialIdx s))",
    goal_cases)
  case 1
  show ?case by simp
next
  case (2 osc samples s k p start p1 p2 s1 s2)
  from synthesize_at_frame[OF 2(10)] 2 show ?case by (auto split: if_splits)
qed

declare activate_due.simps [simp del]

text \<open>The size of a \<^verbatim>\<open>float\<close> in bytes, and how many cells of the window
  \<^verbatim>\<open>memset(buffer->data(), 0, samples * sizeof(decltype(buffer->data())))\<close> clears:
  \<^verbatim>\<open>decltype(buffer->data())\<close> is \<^verbatim>\<open>float *\<close>, so the byte count is \<^verbatim>\<open>samples\<close> times the
  size \<open>ptr\<close> of a pointer (4 or 8 on the platforms in use).\<close>

definition sizeof_float :: nat where
  "sizeof_float = 4"

definition cleared_cells :: "nat \<Rightarrow> int \<Rightarrow> nat" where
  "cleared_cells ptr samples = (nat samples * ptr) div sizeof_float"

text \<open>\<^verbatim>\<open>buffer->reserve(n)\<close>: a larger allocation keeps the \<^verbatim>\<open>size()\<close> elements; the other
  cells are indeterminate, and stand as 0 here.\<close>

definition reserve :: "nat \<Rightarrow> Buffer \<Rightarrow> Buffer" where
  "reserve n b =
     (if capacity b < n
      then b\<lparr>storage := take (vsize b) (storage b) @ replicate (n - vsize b) 0\<rparr>
      else b)"

text \<open>The vector after \<^verbatim>\<open>if (buffer->size() < samples) buffer->reserve(samples);\<close>
  (lines 183 and 184).\<close>

definition prepared_window :: "int \<Rightarrow> Buffer \<Rightarrow> Buffer" where
  "prepared_window samples b = (if int (vsize b) < samples then reserve (nat samples) b else b)"

text \<open>\<^verbatim>\<open>synthesizeNext( samples )\<close>, on a platform whose pointers have \<open>ptr\<close> bytes. A
  negative \<^verbatim>\<open>samples\<close> is compared as a huge unsigned number, \<^verbatim>\<open>reserve\<close> throws, and
  the function is \<^verbatim>\<open>noexcept\<close>.\<close>

definition synthesizeNext ::
  "nat \<Rightarrow> 'o Oscillator \<Rightarrow> int \<Rightarrow> 'o RealTimeSynthesizer \<Rightarrow> failure + 'o RealTimeSynthesizer" where
  "synthesizeNext ptr osc samples s =
     (case int_result (processedSamples s + samples) of
        Inl e \<Rightarrow> Inl e
      | Inr processed \<Rightarrow>
          let s1 = s\<lparr>processedSamples := processed\<rparr> in
          if samples < 0 then Inl Terminated
          else
            let b1 = prepared_window samples (buffer s1);
                n = cleared_cells ptr samples
            in
              if capacity b1 < n then Inl BufferOverrun
              else
                let b2 = b1\<lparr>storage := replicate n 0 @ drop n (storage b1)\<rparr>;
                    s2 = s1\<lparr>buffer := b2\<rparr>
                in case resume_active osc samples (length (partialsBeingProcessed s2)) s2 of
                     Inl e \<Rightarrow> Inl e
                   | Inr s3 \<Rightarrow> activate_due osc samples s3)"

text \<open>What the caller reads after \<^verbatim>\<open>synthesizeNext( samples )\<close>: the first \<^verbatim>\<open>samples\<close>
  cells of the window.\<close>

definition block_output :: "int \<Rightarrow> 'o RealTimeSynthesizer \<Rightarrow> real list" where
  "block_output samples s = take (nat samples) (storage (buffer s))"

text \<open>A sequence of calls of \<^verbatim>\<open>synthesizeNext\<close>, with the output of each call.\<close>

fun renderBlocks ::
  "nat \<Rightarrow> 'o Oscillator \<Rightarrow> int list \<Rightarrow> 'o RealTimeSynthesizer
     \<Rightarrow> failure + (real list list \<times> 'o RealTimeSynthesizer)" where
  "renderBlocks ptr osc [] s = Inr ([], s)"
| "renderBlocks ptr osc (n # ns) s =
     (case synthesizeNext ptr osc n s of
        Inl e \<Rightarrow> Inl e
      | Inr s1 \<Rightarrow>
          (case renderBlocks ptr osc ns s1 of
             Inl e \<Rightarrow> Inl e
           | Inr (outs, s2) \<Rightarrow> Inr (block_output n s1 # outs, s2)))"

subsection \<open>A reference oscillator\<close>

text \<open>Modelled from the spec: the oscillator service (RealtimeOscillator.h is missing),
  for the evaluations below. "Given a start/end breakpoint pair, a sample count, and a
  sample rate, produces that many samples", and it "exposes/accepts: current amplitude,
  current phase, ... and a serializable envelope snapshot". Its state is that snapshot.
  Over a span of \<open>n\<close> samples the amplitude and the frequency move in \<open>n\<close> equal steps
  from their current values to the target's ("linear-frequency segments", line 251), the
  phase advances by the current frequency after each sample, and a sample is the amplitude
  times the wave shape at the phase. The wave shape \<open>wave\<close> is a parameter.\<close>

fun ref_run ::
  "(real \<Rightarrow> real) \<Rightarrow> real \<Rightarrow> real \<Rightarrow> real \<Rightarrow> nat \<Rightarrow> real \<Rightarrow> real \<Rightarrow> real \<Rightarrow> real list \<times> real" where
  "ref_run wave srate da df 0 a f ph = ([], ph)"
| "ref_run wave srate da df (Suc m) a f ph =
     (case ref_run wave srate da df m (a + da) (f + df) (ph + 2 * Pi * f / srate) of
        (xs, ph1) \<Rightarrow> (a * wave ph # xs, ph1))"

definition ref_oscillate ::
  "(real \<Rightarrow> real) \<Rightarrow> nat \<Rightarrow> Breakpoint \<Rightarrow> real \<Rightarrow> Breakpoint \<Rightarrow> real list \<times> Breakpoint" where
  "ref_oscillate wave n tgt srate cur =
     (case ref_run wave srate ((amplitude tgt - amplitude cur) / real n)
             ((frequency tgt - frequency cur) / real n) n
             (amplitude cur) (frequency cur) (phase cur) of
        (xs, ph1) \<Rightarrow> (xs, tgt\<lparr>phase := ph1\<rparr>))"

definition ref_osc :: "(real \<Rightarrow> real) \<Rightarrow> Breakpoint Oscillator" where
  "ref_osc wave =
     \<lparr>resetEnvelopes = (\<lambda>bp srate cur. bp),
      restoreEnvelopes = (\<lambda>bp cur. bp),
      setPhase = (\<lambda>ph cur. cur\<lparr>phase := ph\<rparr>),
      oscillate = ref_oscillate wave,
      osc_amplitude = amplitude,
      osc_phase = phase,
      envelopes = (\<lambda>cur. cur)\<rparr>"

text \<open>A synthesizer as constructed (44100 Hz and a fade of 1 ms are the defaults of the
  base class; \<^verbatim>\<open>OneOverSrate\<close> is 0 until \<^verbatim>\<open>setSampleRate\<close> is called), over a window
  \<open>b\<close>.\<close>

definition new_synth :: "real \<Rightarrow> real \<Rightarrow> Buffer \<Rightarrow> Breakpoint RealTimeSynthesizer" where
  "new_synth rate fade b =
     setSampleRate rate
       \<lparr>m_srateHz = 44100, m_fadeTimeSec = fade, OneOverSrate = 0, pitch = 0,
        m_osc = \<lparr>frequency = 0, amplitude = 0, bandwidth = 0, phase = 0\<rparr>,
        partials = [], partialIdx = 0, processedSamples = 0,
        partialsBeingProcessed = [], buffer = b\<rparr>"

subsection \<open>Inputs of the evaluations\<close>

text \<open>A breakpoint of amplitude 1 whose frequency turns the phase by one radian per
  sample at a sample rate of 1 Hz, and a window of eight cells holding the value 9.\<close>

definition tone :: Breakpoint where
  "tone = \<lparr>frequency = 1 / (2 * Pi), amplitude = 1, bandwidth = 0, phase = 1\<rparr>"

definition window8 :: Buffer where
  "window8 = \<lparr>vsize = 8, storage = replicate 8 9\<rparr>"

section \<open>Partial preparation\<close>

lemma setup_loop_eq:
  "setup_loop F ps acc
     = acc @ map (setup_partial F) (filter (\<lambda>it. 0 < Partial_numBreakpoints it) ps)"
  by (induction ps arbitrary: acc) auto

lemma partials_rts_setup:
  "partials (rts_setup ps pitch0 s)
     = map (setup_partial (m_fadeTimeSec s)) (filter (\<lambda>it. 0 < Partial_numBreakpoints it) ps)"
  by (simp add: rts_setup_def reset_def setup_loop_eq)

text \<open>
  C7. For a source partial \<open>it\<close> of the list given to \<^verbatim>\<open>setup\<close> that has at least one
  breakpoint, with start \<open>S\<close> and end \<open>E\<close> and the fade time \<open>F\<close>: the Render Partial
  built for it is in the session; its start time, and the time of its first breakpoint, is
  \<open>max 0 (S - F)\<close>; its last breakpoint is at \<open>E + F\<close>; it has two breakpoints more
  than \<open>it\<close> (in the vector and in \<^verbatim>\<open>numBreakpoints\<close>); the first and the last have
  amplitude 0; and between them stand the breakpoints of \<open>it\<close>, unchanged.
\<close>

theorem setup_fade_boundaries:
  assumes "it \<in> set ps" and "it \<noteq> []"
  shows "setup_partial (m_fadeTimeSec s) it \<in> set (partials (rts_setup ps pitch0 s))
    \<and> startTime (setup_partial (m_fadeTimeSec s) it)
        = max 0 (Partial_startTime it - m_fadeTimeSec s)
    \<and> fst (hd (breakpoints (setup_partial (m_fadeTimeSec s) it)))
        = max 0 (Partial_startTime it - m_fadeTimeSec s)
    \<and> fst (last (breakpoints (setup_partial (m_fadeTimeSec s) it)))
        = Partial_endTime it + m_fadeTimeSec s
    \<and> int (length (breakpoints (setup_partial (m_fadeTimeSec s) it)))
        = Partial_numBreakpoints it + 2
    \<and> numBreakpoints (setup_partial (m_fadeTimeSec s) it) = Partial_numBreakpoints it + 2
    \<and> amplitude (snd (hd (breakpoints (setup_partial (m_fadeTimeSec s) it)))) = 0
    \<and> amplitude (snd (last (breakpoints (setup_partial (m_fadeTimeSec s) it)))) = 0
    \<and> butlast (tl (breakpoints (setup_partial (m_fadeTimeSec s) it))) = it"
proof -
  have "0 < Partial_numBreakpoints it"
    using assms(2) by (simp add: Partial_numBreakpoints_def)
  with assms(1)
  have "setup_partial (m_fadeTimeSec s) it \<in> set (partials (rts_setup ps pitch0 s))"
    by (simp add: partials_rts_setup)
  then show ?thesis
    by (simp add: setup_partial_def Let_def Partial_numBreakpoints_def Partial_endTime_def
        makeNullBefore_def makeNullAfter_def max_def)
qed

text \<open>At a partial of two breakpoints, at 3 s and 5 s, with a fade of 2 s.\<close>

theorem setup_fade_boundaries_witness:
  "[(3, tone), (5, tone)] \<in> set [[], [(3, tone), (5, tone)]]
   \<and> [(3, tone), (5, tone)] \<noteq> []
   \<and> setup_partial 2 [(3, tone), (5, tone)]
       \<in> set (partials (rts_setup [[], [(3, tone), (5, tone)]] 440 (new_synth 1 2 window8)))
   \<and> startTime (setup_partial 2 [(3, tone), (5, tone)]) = 1
   \<and> fst (last (breakpoints (setup_partial 2 [(3, tone), (5, tone)]))) = 7
   \<and> numBreakpoints (setup_partial 2 [(3, tone), (5, tone)]) = 4
   \<and> amplitude (snd (hd (breakpoints (setup_partial 2 [(3, tone), (5, tone)])))) = 0
   \<and> amplitude (snd (last (breakpoints (setup_partial 2 [(3, tone), (5, tone)])))) = 0"
  using setup_fade_boundaries[of "[(3, tone), (5, tone)]" "[[], [(3, tone), (5, tone)]]"
      "new_synth 1 2 window8" 440]
  by (simp add: new_synth_def setSampleRate_def Partial_startTime_def Partial_endTime_def
      Partial_numBreakpoints_def)

text \<open>
  C8, the code at a failing input. A source partial with breakpoints at -1 s and 2 s
  starts before 0; the claim has it rejected, with no Render Partial and no samples.
  \<^verbatim>\<open>setup\<close> tests the number of breakpoints only (line 97) and clamps the start time
  (line 104): the partial is in the session, and the block rendered from the session
  holds its samples. The test \<^verbatim>\<open>p.startTime < 0\<close> of line 240 reads the clamped field.
\<close>

theorem negative_start_is_kept:
  "Partial_startTime [(-1, tone), (2, tone)] < 0
   \<and> length (partials (rts_setup [[(-1, tone), (2, tone)]] 440 (new_synth 1 0 window8))) = 1
   \<and> map_sum id fst
       (renderBlocks 4 (ref_osc (\<lambda>ph. ph)) [4]
          (rts_setup [[(-1, tone), (2, tone)]] 440 (new_synth 1 0 window8)))
     = Inr [[1, 2, 0, 0]]"
  by code_simp

section \<open>Evaluations of the block renderer\<close>

text \<open>A partial that rises from amplitude 1 at 0 s to amplitude 3 at 4 s; a breakpoint of
  amplitude 0; and one of amplitude 0 whose stored phase is 10.\<close>

definition rise :: Partial where
  "rise = [(0, tone), (4, tone\<lparr>amplitude := 3\<rparr>)]"

definition quiet :: Breakpoint where
  "quiet = tone\<lparr>amplitude := 0\<rparr>"

definition hushed :: Breakpoint where
  "hushed = tone\<lparr>amplitude := 0, phase := 10\<rparr>"

text \<open>A run of blocks, \<^verbatim>\<open>reset()\<close>, and the same blocks again: the outputs of the second
  run.\<close>

definition replay_after_reset ::
  "nat \<Rightarrow> 'o Oscillator \<Rightarrow> int list \<Rightarrow> 'o RealTimeSynthesizer
     \<Rightarrow> failure + (real list list \<times> 'o RealTimeSynthesizer)" where
  "replay_after_reset ptr osc ns s =
     (case renderBlocks ptr osc ns s of
        Inl e \<Rightarrow> Inl e
      | Inr (outs, s1) \<Rightarrow> renderBlocks ptr osc ns (reset s1))"

text \<open>
  C1, the code at a failing input. The partial \<open>rise\<close> at 1 Hz without fade, rendered
  with the reference oscillator of any wave shape: one call of 4 samples ramps the
  amplitude over the 4 samples; two calls of 2 samples hold the amplitude 1 through the
  first call, where the clipped span is oscillated towards \<^verbatim>\<open>breakpoints[i - 1]\<close> (the
  \<^verbatim>\<open>i--\<close> of line 270 precedes line 273), and ramp it over the second call only.
\<close>

theorem chunked_render_differs:
  "map_sum id (concat \<circ> fst)
     (renderBlocks 4 (ref_osc wave) [4] (rts_setup [rise] 440 (new_synth 1 0 window8)))
   = Inr [wave 1, 3 / 2 * wave 2, 2 * wave 3, 5 / 2 * wave 4]
   \<and> map_sum id (concat \<circ> fst)
       (renderBlocks 4 (ref_osc wave) [2, 2] (rts_setup [rise] 440 (new_synth 1 0 window8)))
     = Inr [wave 1, wave 2, wave 3, 2 * wave 4]"
proof -
  have a: "map_sum id (concat \<circ> fst)
     (renderBlocks 4 (ref_osc wave) [4] (rts_setup [rise] 440 (new_synth 1 0 window8)))
   = Inr [wave 1, 3 / 2 * wave 2, 2 * wave 3, 5 / 2 * wave 4]"
    apply code_simp
    apply (simp add: of_rat_add of_rat_mult of_rat_divide of_rat_diff)
    done
  have b: "map_sum id (concat \<circ> fst)
       (renderBlocks 4 (ref_osc wave) [2, 2] (rts_setup [rise] 440 (new_synth 1 0 window8)))
     = Inr [wave 1, wave 2, wave 3, 2 * wave 4]"
    apply code_simp
    apply (simp add: of_rat_add of_rat_mult of_rat_divide of_rat_diff)
    done
  show ?thesis by (rule conjI[OF a b])
qed

text \<open>
  C3, the code at a failing input. One partial with a breakpoint at 2 s and a fade of 2 s,
  at 1 Hz, rendered in blocks of 3 and 1 samples. The first block ends inside the fade-out,
  and line 298 stores the oscillator's phase there into \<^verbatim>\<open>breakpoints[1]\<close>: 2 instead of
  1. \<^verbatim>\<open>reset()\<close> rewinds the counters and leaves the stored phase, so the second run
  starts the fade-in one radian later than the first.
\<close>

theorem replay_after_reset_differs:
  "map_sum id fst
     (renderBlocks 4 (ref_osc wave) [3, 1] (rts_setup [[(2, tone)]] 440 (new_synth 1 2 window8)))
   = Inr [[0, 1 / 2 * wave 0, wave 1], [wave 2]]
   \<and> map_sum id fst
       (replay_after_reset 4 (ref_osc wave) [3, 1]
          (rts_setup [[(2, tone)]] 440 (new_synth 1 2 window8)))
     = Inr [[0, 1 / 2 * wave 1, wave 2], [wave 3]]
   \<and> map_sum id (\<lambda>r. map (phase \<circ> snd) (breakpoints (partials (snd r) ! 0)))
       (renderBlocks 4 (ref_osc wave) [3, 1]
          (rts_setup [[(2, tone)]] 440 (new_synth 1 2 window8)))
     = Inr [- 1, 2, 3]
   \<and> map (phase \<circ> snd) (breakpoints (setup_partial 2 [(2, tone)])) = [- 1, 1, 3]"
proof -
  have a: "map_sum id fst
     (renderBlocks 4 (ref_osc wave) [3, 1] (rts_setup [[(2, tone)]] 440 (new_synth 1 2 window8)))
   = Inr [[0, 1 / 2 * wave 0, wave 1], [wave 2]]"
    apply code_simp
    apply (simp add: of_rat_add of_rat_mult of_rat_divide of_rat_diff)
    done
  have b: "map_sum id fst
       (replay_after_reset 4 (ref_osc wave) [3, 1]
          (rts_setup [[(2, tone)]] 440 (new_synth 1 2 window8)))
     = Inr [[0, 1 / 2 * wave 1, wave 2], [wave 3]]"
    apply code_simp
    apply (simp add: of_rat_add of_rat_mult of_rat_divide of_rat_diff)
    done
  have c: "map_sum id (\<lambda>r. map (phase \<circ> snd) (breakpoints (partials (snd r) ! 0)))
       (renderBlocks 4 (ref_osc wave) [3, 1]
          (rts_setup [[(2, tone)]] 440 (new_synth 1 2 window8)))
     = Inr [- 1, 2, 3]"
    by code_simp
  have d: "map (phase \<circ> snd) (breakpoints (setup_partial 2 [(2, tone)])) = [- 1, 1, 3]"
    by code_simp
  show ?thesis by (rule conjI[OF a conjI[OF b conjI[OF c d]]])
qed

text \<open>
  C4, the code at a failing input. A partial with breakpoints at 2 s and 4 s, both of
  amplitude 0, the second with the stored phase 10, and a fade of 2 s, at 1 Hz. When the
  segment to the second breakpoint starts, the oscillator's amplitude is 0 and the target's
  amplitude is 0 too; line 279 tests the oscillator only, and the phase is overridden: the
  oscillator arrives at the stored phase 10. Left alone it would arrive at 3, where two
  samples of oscillation take it from the phase 1 it has at the first breakpoint.
\<close>

theorem phase_overridden_at_zero_target:
  "osc_amplitude (ref_osc wave) quiet = 0 \<and> amplitude hushed = 0
   \<and> map_sum id (\<lambda>r. (lastBreakpointIdx (state (partials (snd r) ! 0)), phase (m_osc (snd r))))
       (renderBlocks 4 (ref_osc wave) [2]
          (rts_setup [[(2, quiet), (4, hushed)]] 440 (new_synth 1 2 window8)))
     = Inr (1, 1)
   \<and> map_sum id (\<lambda>r. (lastBreakpointIdx (state (partials (snd r) ! 0)), phase (m_osc (snd r))))
       (renderBlocks 4 (ref_osc wave) [2, 2]
          (rts_setup [[(2, quiet), (4, hushed)]] 440 (new_synth 1 2 window8)))
     = Inr (2, 10)
   \<and> phase (snd (ref_oscillate wave 2 hushed 1 quiet)) = 3"
proof -
  have a: "osc_amplitude (ref_osc wave) quiet = 0" "amplitude hushed = 0"
    by code_simp+
  have b: "map_sum id
       (\<lambda>r. (lastBreakpointIdx (state (partials (snd r) ! 0)), phase (m_osc (snd r))))
       (renderBlocks 4 (ref_osc wave) [2]
          (rts_setup [[(2, quiet), (4, hushed)]] 440 (new_synth 1 2 window8)))
     = Inr (1, 1)"
    by code_simp
  have c: "map_sum id
       (\<lambda>r. (lastBreakpointIdx (state (partials (snd r) ! 0)), phase (m_osc (snd r))))
       (renderBlocks 4 (ref_osc wave) [2, 2]
          (rts_setup [[(2, quiet), (4, hushed)]] 440 (new_synth 1 2 window8)))
     = Inr (2, 10)"
    by code_simp
  have d: "phase (snd (ref_oscillate wave 2 hushed 1 quiet)) = 3"
    by code_simp
  show ?thesis by (rule conjI[OF a(1) conjI[OF a(2) conjI[OF b conjI[OF c d]]]])
qed

text \<open>
  C5, the code at a failing input. With pointers of 8 bytes a call for 2 samples clears 4
  cells of the window: \<^verbatim>\<open>sizeof(decltype(buffer->data()))\<close> is the size of a \<^verbatim>\<open>float *\<close>,
  not of a \<^verbatim>\<open>float\<close>. The session has no partial; the window held 9 in each cell.
\<close>

theorem clear_passes_block_end:
  "map_sum id (\<lambda>s. storage (buffer s))
     (synthesizeNext 8 osc 2 (rts_setup [] 440 (new_synth 1 0 window8)))
   = Inr [0, 0, 0, 0, 9, 9, 9, 9]"
  by code_simp


section \<open>Segment synthesis\<close>


lemma map_fst_update_same [simp]:
  "(map fst xs)[n := fst (xs ! n)] = map fst xs"
  by (cases "n < length xs") (simp_all add: list_eq_iff_nth_eq nth_list_update)


text \<open>What a pass with a defined result leaves as it was, and which way it moves the rest.\<close>

lemma segment_frame:
  assumes "segment osc srateHz oneOverSrate samples l = Inr l'"
  shows "0 \<le> idx l \<and> idx l < int (length (breakpoints (part l)))
    \<and> map fst (breakpoints (part l')) = map fst (breakpoints (part l))
    \<and> length (breakpoints (part l')) = length (breakpoints (part l))
    \<and> numBreakpoints (part l') = numBreakpoints (part l)
    \<and> startTime (part l') = startTime (part l)
    \<and> endTime (part l') = endTime (part l)
    \<and> lastBreakpointIdx (state (part l')) = idx l'
    \<and> 0 \<le> idx l' \<and> idx l' \<le> idx l \<and> idx l - 1 \<le> idx l'
    \<and> length (window l') = length (window l)
    \<and> currentSamp (state (part l)) \<le> currentSamp (state (part l'))
    \<and> 0 \<le> bufOffset l \<and> bufOffset l \<le> bufOffset l'
    \<and> bufOffset l' \<le> int (length (window l))"
proof -
  obtain sampleDiff sampleCounter1 i1
    where c: "clip_span srateHz samples l = Inr (sampleDiff, sampleCounter1, i1)"
    using assms by (auto simp: segment_def split: sum.splits)
  have i: "0 \<le> idx l \<and> idx l < int (length (breakpoints (part l)))"
    using c by (auto simp: clip_span_def Let_def split: if_splits)
  show ?thesis
    using assms c i clip_span_cases[OF c]
    by (auto simp: segment_def Let_def accumulate_def map_update int_result_def
        split: if_splits sum.splits prod.splits)
qed









section \<open>Sessions keep their shape\<close>

text \<open>What \<^verbatim>\<open>setup\<close> establishes for a partial and the renderer keeps: \<^verbatim>\<open>numBreakpoints\<close>
  is the length of the vector, there are at least three breakpoints, the start time is
  not negative, and \<^verbatim>\<open>lastBreakpointIdx\<close> is an index of the vector.\<close>

definition shaped :: "PartialStruct \<Rightarrow> bool" where
  "shaped p =
     (numBreakpoints p = int (length (breakpoints p)) \<and> 3 \<le> length (breakpoints p)
      \<and> 0 \<le> startTime p
      \<and> 0 \<le> lastBreakpointIdx (state p) \<and> lastBreakpointIdx (state p) < numBreakpoints p)"

text \<open>The failures of a pass: never one of the window's vector, and never a stray read
  from an index between 1 and the last.\<close>

lemma segment_failure:
  assumes "segment osc srateHz oneOverSrate samples l = Inl e"
  shows "e \<noteq> BufferOverrun \<and> e \<noteq> Terminated
    \<and> (1 \<le> idx l \<and> idx l < int (length (breakpoints (part l))) \<longrightarrow> e \<noteq> OutOfRangeRead)"
  using assms
  by (auto simp: segment_def clip_span_def Let_def int_result_def index_type_def
      split: if_splits sum.splits prod.splits)

text \<open>The loop, when it has a defined result, and when it has none.\<close>

lemma segments_frame:
  assumes "segments osc srateHz oneOverSrate samples l = Inr l'"
  shows "numBreakpoints (part l') = numBreakpoints (part l)
     \<and> map fst (breakpoints (part l')) = map fst (breakpoints (part l))
     \<and> length (breakpoints (part l')) = length (breakpoints (part l))
     \<and> startTime (part l') = startTime (part l)
     \<and> endTime (part l') = endTime (part l)
     \<and> length (window l') = length (window l)
     \<and> currentSamp (state (part l)) \<le> currentSamp (state (part l'))
     \<and> (if idx l < numBreakpoints (part l)
         then lastBreakpointIdx (state (part l')) < numBreakpoints (part l)
              \<and> idx l - 1 \<le> lastBreakpointIdx (state (part l'))
         else l' = l)"
  using assms
proof (induction osc srateHz oneOverSrate samples l rule: segments.induct)
  case (1 osc srateHz oneOverSrate samples l)
  show ?case
  proof (cases "idx l < numBreakpoints (part l)")
    case False
    then show ?thesis using "1.prems" by (subst (asm) segments.simps) simp
  next
    case True
    then obtain l1 where l1: "segment osc srateHz oneOverSrate samples l = Inr l1"
      using "1.prems" by (subst (asm) segments.simps) (auto split: sum.splits)
    note f = segment_frame[OF l1]
    show ?thesis
    proof (cases "samples \<le> sampleCounter l1")
      case True
      have "segments osc srateHz oneOverSrate samples l = Inr l1"
        using \<open>idx l < numBreakpoints (part l)\<close> l1 True by (subst segments.simps) simp
      then show ?thesis using f \<open>idx l < numBreakpoints (part l)\<close> "1.prems" by simp
    next
      case False
      note c = segment_continues[OF l1 False]
      let ?l2 = "l1\<lparr>idx := idx l1 + 1\<rparr>"
      have "segments osc srateHz oneOverSrate samples l
            = segments osc srateHz oneOverSrate samples ?l2"
        using True l1 False by (subst segments.simps) simp
      then have l': "segments osc srateHz oneOverSrate samples ?l2 = Inr l'"
        using "1.prems" by simp
      note g = "1.IH"[OF True l1 False l']
      have "lastBreakpointIdx (state (part l')) < numBreakpoints (part l)
              \<and> idx l - 1 \<le> lastBreakpointIdx (state (part l'))"
        using g f c True by (auto split: if_splits)
      then show ?thesis using g f True by simp
    qed
  qed
qed

lemma segments_failure:
  assumes "segments osc srateHz oneOverSrate samples l = Inl e"
  shows "e \<noteq> BufferOverrun \<and> e \<noteq> Terminated
    \<and> (numBreakpoints (part l) = int (length (breakpoints (part l))) \<and> 1 \<le> idx l
        \<longrightarrow> e \<noteq> OutOfRangeRead)"
  using assms
proof (induction osc srateHz oneOverSrate samples l rule: segments.induct)
  case (1 osc srateHz oneOverSrate samples l)
  have t: "idx l < numBreakpoints (part l)"
    using "1.prems" by (subst (asm) segments.simps) (simp split: if_splits)
  show ?case
  proof (cases "segment osc srateHz oneOverSrate samples l")
    case (Inl e1)
    then have "e1 = e"
      using "1.prems" t by (subst (asm) segments.simps) simp
    then show ?thesis
      using segment_failure[OF Inl] t by auto
  next
    case (Inr l1)
    note f = segment_frame[OF Inr]
    have n: "\<not> samples \<le> sampleCounter l1"
      using "1.prems" t Inr by (subst (asm) segments.simps) (simp split: if_splits)
    note c = segment_continues[OF Inr n]
    let ?l2 = "l1\<lparr>idx := idx l1 + 1\<rparr>"
    have "segments osc srateHz oneOverSrate samples ?l2 = Inl e"
      using "1.prems" t Inr n by (subst (asm) segments.simps) simp
    from "1.IH"[OF t Inr n this] show ?thesis
      using f c by auto
  qed
qed

text \<open>The same for \<^verbatim>\<open>synthesize\<close>.\<close>

lemma synthesize_frame:
  assumes "synthesize osc srateHz oneOverSrate p samples oscst w = Inr (p', oscst', w')"
  shows "map fst (breakpoints p') = map fst (breakpoints p)
     \<and> length (breakpoints p') = length (breakpoints p)
     \<and> startTime p' = startTime p \<and> endTime p' = endTime p
     \<and> numBreakpoints p' = numBreakpoints p
     \<and> currentSamp (state p) \<le> currentSamp (state p')
     \<and> length w' = length w
     \<and> (shaped p \<longrightarrow> shaped p' \<and> lastBreakpointIdx (state p) \<le> lastBreakpointIdx (state p'))"
proof (cases "numBreakpoints p \<le> 0 \<or> startTime p < 0
              \<or> numBreakpoints p - 1 \<le> lastBreakpointIdx (state p)")
  case True
  then have "p' = p \<and> w' = w"
    using assms by (auto simp: synthesize_def split: if_splits)
  then show ?thesis by simp
next
  case False
  let ?o0 = "if lastBreakpointIdx (state p) = NoBreakpointProcessed
             then resetEnvelopes osc (envelope (state p)) srateHz oscst
             else restoreEnvelopes osc (envelope (state p)) oscst"
  let ?l = "\<lparr>idx = lastBreakpointIdx (state p) + 1, sampleCounter = 0, bufOffset = 0,
             part = p, osc_st = ?o0, window = w\<rparr>"
  obtain l' where l': "segments osc srateHz oneOverSrate samples ?l = Inr l'"
    and r: "p' = (part l')\<lparr>state := (state (part l'))\<lparr>envelope := envelopes osc (osc_st l')\<rparr>\<rparr>"
      "w' = window l'"
    using assms False by (auto simp: synthesize_def Let_def split: sum.splits)
  from segments_frame[OF l'] False
  have g: "numBreakpoints (part l') = numBreakpoints p"
      "map fst (breakpoints (part l')) = map fst (breakpoints p)"
      "length (breakpoints (part l')) = length (breakpoints p)"
      "startTime (part l') = startTime p"
      "endTime (part l') = endTime p"
      "length (window l') = length w"
      "currentSamp (state p) \<le> currentSamp (state (part l'))"
      "lastBreakpointIdx (state (part l')) < numBreakpoints p"
      "lastBreakpointIdx (state p) \<le> lastBreakpointIdx (state (part l'))"
    by (auto split: if_splits)
  show ?thesis using g r by (auto simp: shaped_def)
qed

lemma synthesize_failure:
  assumes "synthesize osc srateHz oneOverSrate p samples oscst w = Inl e"
  shows "e \<noteq> BufferOverrun \<and> e \<noteq> Terminated \<and> (shaped p \<longrightarrow> e \<noteq> OutOfRangeRead)"
proof -
  let ?o0 = "if lastBreakpointIdx (state p) = NoBreakpointProcessed
             then resetEnvelopes osc (envelope (state p)) srateHz oscst
             else restoreEnvelopes osc (envelope (state p)) oscst"
  let ?l = "\<lparr>idx = lastBreakpointIdx (state p) + 1, sampleCounter = 0, bufOffset = 0,
             part = p, osc_st = ?o0, window = w\<rparr>"
  have "segments osc srateHz oneOverSrate samples ?l = Inl e"
    using assms by (auto simp: synthesize_def Let_def split: if_splits sum.splits)
  from segments_failure[OF this] show ?thesis
    by (auto simp: shaped_def)
qed

text \<open>The same for a session: every partial is \<open>shaped\<close>, \<^verbatim>\<open>partialIdx\<close> is not
  negative, and every queued pointer points into \<^verbatim>\<open>partials\<close>.\<close>

definition session_ok :: "'o RealTimeSynthesizer \<Rightarrow> bool" where
  "session_ok s =
     ((\<forall>p \<in> set (partials s). shaped p) \<and> 0 \<le> partialIdx s
      \<and> (\<forall>k \<in> set (partialsBeingProcessed s). k < length (partials s)))"

lemma synthesize_at_ok:
  assumes "synthesize_at osc k samples s = Inr s'"
  shows "k < length (partials s)
     \<and> capacity (buffer s') = capacity (buffer s)
     \<and> (\<forall>j. j \<noteq> k \<longrightarrow> partials s' ! j = partials s ! j)
     \<and> map fst (breakpoints (partials s' ! k)) = map fst (breakpoints (partials s ! k))
     \<and> numBreakpoints (partials s' ! k) = numBreakpoints (partials s ! k)
     \<and> startTime (partials s' ! k) = startTime (partials s ! k)
     \<and> currentSamp (state (partials s ! k)) \<le> currentSamp (state (partials s' ! k))
     \<and> (session_ok s \<longrightarrow> session_ok s' \<and> shaped (partials s' ! k)
          \<and> lastBreakpointIdx (state (partials s ! k))
              \<le> lastBreakpointIdx (state (partials s' ! k)))"
proof -
  have k: "k < length (partials s)"
    using assms by (auto simp: synthesize_at_def split: if_splits)
  obtain p' oscst' w' where r: "synthesize osc (m_srateHz s) (OneOverSrate s) (partials s ! k)
        samples (m_osc s) (storage (buffer s)) = Inr (p', oscst', w')"
    and e: "s' = s\<lparr>partials := (partials s)[k := p'], m_osc := oscst',
                 buffer := (buffer s)\<lparr>storage := w'\<rparr>\<rparr>"
    using assms k by (auto simp: synthesize_at_def split: sum.splits)
  note g = synthesize_frame[OF r]
  have "session_ok s \<Longrightarrow> session_ok s' \<and> shaped p'"
  proof -
    assume ok: "session_ok s"
    then have "shaped (partials s ! k)"
      using k by (simp add: session_ok_def)
    then have "shaped p'" using g by simp
    then show ?thesis
      using ok e by (auto simp: session_ok_def dest: set_update_subset_insert[THEN subsetD])
  qed
  moreover have "session_ok s \<Longrightarrow> shaped (partials s ! k)"
    using k by (simp add: session_ok_def)
  ultimately show ?thesis using e g k by (auto simp: capacity_def)
qed

lemma synthesize_at_failure:
  assumes "synthesize_at osc k samples s = Inl e"
  shows "e \<noteq> BufferOverrun \<and> e \<noteq> Terminated
     \<and> (session_ok s \<and> k < length (partials s) \<longrightarrow> e \<noteq> OutOfRangeRead)"
proof (cases "length (partials s) \<le> k")
  case True
  then show ?thesis using assms by (simp add: synthesize_at_def)
next
  case False
  then have "synthesize osc (m_srateHz s) (OneOverSrate s) (partials s ! k)
        samples (m_osc s) (storage (buffer s)) = Inl e"
    using assms by (auto simp: synthesize_at_def split: sum.splits)
  from synthesize_failure[OF this] False show ?thesis
    by (auto simp: session_ok_def)
qed

lemma resume_active_ok:
  assumes "resume_active osc samples n s = Inr s'"
  shows "length (partials s') = length (partials s)
     \<and> partialIdx s' = partialIdx s \<and> processedSamples s' = processedSamples s
     \<and> m_srateHz s' = m_srateHz s
     \<and> vsize (buffer s') = vsize (buffer s) \<and> capacity (buffer s') = capacity (buffer s)
     \<and> (session_ok s \<longrightarrow> session_ok s')"
  using assms
proof (induction n arbitrary: s)
  case 0
  then show ?case by simp
next
  case (Suc n)
  then obtain k rest where q: "partialsBeingProcessed s = k # rest"
    by (cases "partialsBeingProcessed s") auto
  obtain s1 where s1: "synthesize_at osc k samples s = Inr s1"
    using Suc.prems q by (auto split: sum.splits)
  note a = synthesize_at_ok[OF s1]
  note f = synthesize_at_frame[OF s1]
  let ?q = "if unfinished (partials s1 ! k) then partialsBeingProcessed s1 @ [k]
            else partialsBeingProcessed s1"
  let ?s2 = "s1\<lparr>partialsBeingProcessed := tl ?q\<rparr>"
  have s': "resume_active osc samples n ?s2 = Inr s'"
    using Suc.prems q s1 by (simp add: Let_def)
  note g = Suc.IH[OF s']
  have "session_ok s \<Longrightarrow> session_ok ?s2"
    using a f q by (auto simp: session_ok_def)
  then show ?case using g f a by simp
qed

lemma resume_active_failure:
  assumes "resume_active osc samples n s = Inl e"
  shows "e \<noteq> BufferOverrun \<and> e \<noteq> Terminated
     \<and> (session_ok s \<and> n \<le> length (partialsBeingProcessed s) \<longrightarrow> e \<noteq> OutOfRangeRead)"
  using assms
proof (induction n arbitrary: s)
  case 0
  then show ?case by simp
next
  case (Suc n)
  show ?case
  proof (cases "partialsBeingProcessed s")
    case Nil
    then show ?thesis using Suc.prems by simp
  next
    case (Cons k rest)
    show ?thesis
    proof (cases "synthesize_at osc k samples s")
      case (Inl e1)
      then have "e1 = e" using Suc.prems Cons by simp
      then show ?thesis
        using synthesize_at_failure[OF Inl] Cons by (auto simp: session_ok_def)
    next
      case (Inr s1)
      note a = synthesize_at_ok[OF Inr]
      note f = synthesize_at_frame[OF Inr]
      let ?q = "if unfinished (partials s1 ! k) then partialsBeingProcessed s1 @ [k]
                else partialsBeingProcessed s1"
      let ?s2 = "s1\<lparr>partialsBeingProcessed := tl ?q\<rparr>"
      have "resume_active osc samples n ?s2 = Inl e"
        using Suc.prems Cons Inr by (simp add: Let_def)
      note g = Suc.IH[OF this]
      have "session_ok s \<Longrightarrow> session_ok ?s2"
        using a f Cons by (auto simp: session_ok_def)
      moreover have "Suc n \<le> length (partialsBeingProcessed s)
                     \<Longrightarrow> n \<le> length (partialsBeingProcessed ?s2)"
        using f Cons by auto
      ultimately show ?thesis using g by blast
    qed
  qed
qed

lemma activate_due_ok:
  assumes "activate_due osc samples s = Inr s'"
  shows "length (partials s') = length (partials s)
     \<and> processedSamples s' = processedSamples s \<and> m_srateHz s' = m_srateHz s
     \<and> vsize (buffer s') = vsize (buffer s) \<and> capacity (buffer s') = capacity (buffer s)
     \<and> (session_ok s \<longrightarrow> session_ok s')"
  using assms
proof (induction osc samples s rule: activate_due.induct)
  case (1 osc samples s)
  show ?case
  proof (cases "partialIdx s < int (length (partials s))")
    case False
    then show ?thesis using "1.prems" by (subst (asm) activate_due.simps) auto
  next
    case True
    have nn: "\<not> partialIdx s < 0"
      using "1.prems" True by (subst (asm) activate_due.simps) (auto split: if_splits)
    define k where "k = nat (partialIdx s)"
    define p where "p = partials s ! k"
    obtain start where st: "index_type (startTime p * m_srateHz s + 1 / 2) = Inr start"
      using "1.prems" True nn
      by (subst (asm) activate_due.simps)
        (auto simp: Let_def k_def p_def split: sum.splits)
    define p1 where "p1 = p\<lparr>state := (state p)\<lparr>currentSamp := to_int start\<rparr>\<rparr>"
    have k: "k < length (partials s)"
      using True nn by (simp add: k_def)
    have sp1: "session_ok s \<Longrightarrow> shaped p1"
    proof -
      assume "session_ok s"
      then have "shaped p"
        using k by (simp add: session_ok_def p_def)
      then show ?thesis by (simp add: shaped_def p1_def)
    qed
    show ?thesis
    proof (cases "processedSamples s < currentSamp (state p1)")
      case True
      have "activate_due osc samples s = Inr (s\<lparr>partials := (partials s)[k := p1]\<rparr>)"
        using \<open>partialIdx s < int (length (partials s))\<close> nn True st
        by (subst activate_due.simps) (simp add: Let_def k_def p_def p1_def)
      then have e: "s' = s\<lparr>partials := (partials s)[k := p1]\<rparr>"
        using "1.prems" by simp
      have "session_ok s \<Longrightarrow> session_ok (s\<lparr>partials := (partials s)[k := p1]\<rparr>)"
        using sp1
        by (auto simp: session_ok_def dest: set_update_subset_insert[THEN subsetD])
      then show ?thesis using e by (simp add: capacity_def)
    next
      case False
      have len: "\<not> length (breakpoints p1) < 2"
        using "1.prems" True nn st False
        by (subst (asm) activate_due.simps)
          (auto simp: Let_def k_def p_def p1_def split: if_splits)
      define p2 where "p2 = p1\<lparr>state := (state p1)
                           \<lparr>lastBreakpointIdx := NoBreakpointProcessed,
                            envelope := snd (breakpoints p1 ! 0),
                            prevFrequency := frequency (snd (breakpoints p1 ! 1))\<rparr>\<rparr>"
      have sp2: "session_ok s \<Longrightarrow> shaped p2"
        using sp1 by (auto simp: shaped_def p2_def NoBreakpointProcessed_def)
      let ?sa = "s\<lparr>partials := (partials s)[k := p2]\<rparr>"
      have oka: "session_ok s \<Longrightarrow> session_ok ?sa"
        using sp2
        by (auto simp: session_ok_def dest: set_update_subset_insert[THEN subsetD])
      have red: "activate_due osc samples s
            = (case synthesize_at osc k samples ?sa of
                 Inl e \<Rightarrow> Inl e
               | Inr s1 \<Rightarrow>
                   activate_due osc samples
                     ((if unfinished (partials s1 ! k)
                       then s1\<lparr>partialsBeingProcessed := partialsBeingProcessed s1 @ [k]\<rparr>
                       else s1)\<lparr>partialIdx :=
                                  partialIdx (if unfinished (partials s1 ! k)
                                     then s1\<lparr>partialsBeingProcessed :=
                                              partialsBeingProcessed s1 @ [k]\<rparr>
                                     else s1) + 1\<rparr>))"
        using True nn st False len
        by (subst activate_due.simps)
          (auto simp: Let_def k_def p_def p1_def p2_def split: sum.splits)
      obtain s1 where s1: "synthesize_at osc k samples ?sa = Inr s1"
        using "1.prems" red by (auto split: sum.splits)
      note a = synthesize_at_ok[OF s1]
      note f = synthesize_at_frame[OF s1]
      define s2 where "s2 = (if unfinished (partials s1 ! k)
                               then s1\<lparr>partialsBeingProcessed := partialsBeingProcessed s1 @ [k]\<rparr>
                               else s1)"
      let ?s3 = "s2\<lparr>partialIdx := partialIdx s2 + 1\<rparr>"
      have s': "activate_due osc samples ?s3 = Inr s'"
        using "1.prems" red s1 by (simp add: s2_def)
      have ok3: "session_ok s \<Longrightarrow> session_ok ?s3"
        using oka a f k nn by (auto simp: session_ok_def s2_def)
      note g = "1.IH"[OF True nn k_def p_def st p1_def False len p2_def s1 s2_def s']
      show ?thesis using g f a ok3 by (simp add: s2_def capacity_def)
    qed
  qed
qed

lemma activate_due_failure:
  assumes "activate_due osc samples s = Inl e"
  shows "e \<noteq> BufferOverrun \<and> e \<noteq> Terminated \<and> (session_ok s \<longrightarrow> e \<noteq> OutOfRangeRead)"
  using assms
proof (induction osc samples s rule: activate_due.induct)
  case (1 osc samples s)
  have t: "partialIdx s < int (length (partials s))"
    using "1.prems" by (subst (asm) activate_due.simps) (simp split: if_splits)
  show ?case
  proof (cases "partialIdx s < 0")
    case True
    then have "e = OutOfRangeRead"
      using "1.prems" t by (subst (asm) activate_due.simps) simp
    then show ?thesis using True by (simp add: session_ok_def)
  next
    case nn: False
    define k where "k = nat (partialIdx s)"
    define p where "p = partials s ! k"
    have k: "k < length (partials s)"
      using t nn by (simp add: k_def)
    show ?thesis
    proof (cases "index_type (startTime p * m_srateHz s + 1 / 2)")
      case (Inl e1)
      then have "e = e1"
        using "1.prems" t nn
        by (subst (asm) activate_due.simps) (simp add: Let_def k_def p_def)
      then show ?thesis
        using Inl by (auto simp: index_type_def split: if_splits)
    next
      case (Inr start)
      define p1 where "p1 = p\<lparr>state := (state p)\<lparr>currentSamp := to_int start\<rparr>\<rparr>"
      have sp1: "session_ok s \<Longrightarrow> shaped p1"
      proof -
        assume "session_ok s"
        then have "shaped p"
          using k by (simp add: session_ok_def p_def)
        then show ?thesis by (simp add: shaped_def p1_def)
      qed
      have due: "\<not> processedSamples s < currentSamp (state p1)"
        using "1.prems" t nn Inr
        by (subst (asm) activate_due.simps)
          (auto simp: Let_def k_def p_def p1_def split: if_splits)
      show ?thesis
      proof (cases "length (breakpoints p1) < 2")
        case True
        then have "e = OutOfRangeRead"
          using "1.prems" t nn Inr due
          by (subst (asm) activate_due.simps) (simp add: Let_def k_def p_def p1_def)
        moreover have "session_ok s \<Longrightarrow> \<not> length (breakpoints p1) < 2"
          using sp1 unfolding shaped_def by arith
        ultimately show ?thesis using True by auto
      next
        case len: False
        define p2 where "p2 = p1\<lparr>state := (state p1)
                             \<lparr>lastBreakpointIdx := NoBreakpointProcessed,
                              envelope := snd (breakpoints p1 ! 0),
                              prevFrequency := frequency (snd (breakpoints p1 ! 1))\<rparr>\<rparr>"
        have sp2: "session_ok s \<Longrightarrow> shaped p2"
          using sp1 by (auto simp: shaped_def p2_def NoBreakpointProcessed_def)
        let ?sa = "s\<lparr>partials := (partials s)[k := p2]\<rparr>"
        have oka: "session_ok s \<Longrightarrow> session_ok ?sa"
          using sp2
          by (auto simp: session_ok_def dest: set_update_subset_insert[THEN subsetD])
        have red: "activate_due osc samples s
              = (case synthesize_at osc k samples ?sa of
                   Inl e \<Rightarrow> Inl e
                 | Inr s1 \<Rightarrow>
                     activate_due osc samples
                       ((if unfinished (partials s1 ! k)
                         then s1\<lparr>partialsBeingProcessed := partialsBeingProcessed s1 @ [k]\<rparr>
                         else s1)\<lparr>partialIdx :=
                                    partialIdx (if unfinished (partials s1 ! k)
                                       then s1\<lparr>partialsBeingProcessed :=
                                                partialsBeingProcessed s1 @ [k]\<rparr>
                                       else s1) + 1\<rparr>))"
          using t nn Inr due len
          by (subst activate_due.simps)
            (auto simp: Let_def k_def p_def p1_def p2_def split: sum.splits)
        show ?thesis
        proof (cases "synthesize_at osc k samples ?sa")
          case (Inl e1)
          then have "e = e1" using "1.prems" red by simp
          then show ?thesis
            using synthesize_at_failure[OF Inl] oka k by auto
        next
          case s1: (Inr s1)
          note a = synthesize_at_ok[OF s1]
          note f = synthesize_at_frame[OF s1]
          define s2 where "s2 = (if unfinished (partials s1 ! k)
                                 then s1\<lparr>partialsBeingProcessed := partialsBeingProcessed s1 @ [k]\<rparr>
                                 else s1)"
          let ?s3 = "s2\<lparr>partialIdx := partialIdx s2 + 1\<rparr>"
          have s': "activate_due osc samples ?s3 = Inl e"
            using "1.prems" red s1 by (simp add: s2_def)
          have ok3: "session_ok s \<Longrightarrow> session_ok ?s3"
            using oka a f k nn by (auto simp: session_ok_def s2_def)
          note g = "1.IH"[OF t nn k_def p_def Inr p1_def due len p2_def s1 s2_def s']
          show ?thesis using g ok3 by blast
        qed
      qed
    qed
  qed
qed

lemma synthesizeNext_ok:
  assumes "synthesizeNext ptr osc samples s = Inr s'"
  shows "length (partials s') = length (partials s)
     \<and> processedSamples s' = processedSamples s + samples \<and> m_srateHz s' = m_srateHz s
     \<and> vsize (buffer s') = vsize (buffer s)
     \<and> capacity (buffer s') = capacity (prepared_window samples (buffer s))
     \<and> (session_ok s \<longrightarrow> session_ok s')"
proof -
  let ?b1 = "prepared_window samples (buffer s)"
  let ?n = "cleared_cells ptr samples"
  let ?s2 = "s\<lparr>processedSamples := processedSamples s + samples,
               buffer := ?b1\<lparr>storage := replicate ?n 0 @ drop ?n (storage ?b1)\<rparr>\<rparr>"
  have n: "\<not> capacity ?b1 < ?n"
    using assms
    by (auto simp: synthesizeNext_def Let_def int_result_def split: if_splits sum.splits)
  obtain s3 where s3: "resume_active osc samples (length (partialsBeingProcessed s)) ?s2 = Inr s3"
    and s': "activate_due osc samples s3 = Inr s'"
    using assms
    by (auto simp: synthesizeNext_def Let_def int_result_def split: if_splits sum.splits)
  have v: "vsize ?b1 = vsize (buffer s)"
    by (simp add: prepared_window_def reserve_def)
  have c: "capacity (buffer ?s2) = capacity ?b1"
    using n by (simp add: capacity_def)
  have ok2: "session_ok s \<Longrightarrow> session_ok ?s2"
    by (simp add: session_ok_def)
  note g3 = resume_active_ok[OF s3]
  note g = activate_due_ok[OF s']
  show ?thesis using g g3 c v ok2 by simp
qed

lemma synthesizeNext_no_stray_read:
  assumes "session_ok s"
  shows "synthesizeNext ptr osc samples s \<noteq> Inl OutOfRangeRead"
proof
  assume a: "synthesizeNext ptr osc samples s = Inl OutOfRangeRead"
  let ?b1 = "prepared_window samples (buffer s)"
  let ?n = "cleared_cells ptr samples"
  let ?s2 = "s\<lparr>processedSamples := processedSamples s + samples,
               buffer := ?b1\<lparr>storage := replicate ?n 0 @ drop ?n (storage ?b1)\<rparr>\<rparr>"
  have ok2: "session_ok ?s2"
    using assms by (simp add: session_ok_def)
  have e: "(case resume_active osc samples (length (partialsBeingProcessed s)) ?s2 of
              Inl e \<Rightarrow> Inl e
            | Inr s3 \<Rightarrow> activate_due osc samples s3) = Inl OutOfRangeRead"
    using a
    by (auto simp: synthesizeNext_def Let_def int_result_def split: if_splits sum.splits)
  show False
  proof (cases "resume_active osc samples (length (partialsBeingProcessed s)) ?s2")
    case (Inl e1)
    then have "e1 = OutOfRangeRead" using e by simp
    then show False using resume_active_failure[OF Inl] ok2 by simp
  next
    case (Inr s3)
    then have "activate_due osc samples s3 = Inl OutOfRangeRead" using e by simp
    from activate_due_failure[OF this] resume_active_ok[OF Inr] ok2 show False by simp
  qed
qed

lemma renderBlocks_ok:
  assumes "session_ok s"
  shows "renderBlocks ptr osc ns s \<noteq> Inl OutOfRangeRead
     \<and> (\<forall>outs s'. renderBlocks ptr osc ns s = Inr (outs, s') \<longrightarrow> session_ok s')"
  using assms
proof (induction ns arbitrary: s)
  case Nil
  then show ?case by simp
next
  case (Cons n ns)
  show ?case
  proof (cases "synthesizeNext ptr osc n s")
    case (Inl e)
    then show ?thesis
      using synthesizeNext_no_stray_read[OF Cons.prems, of ptr osc n] by simp
  next
    case (Inr s1)
    from synthesizeNext_ok[OF Inr] Cons.prems have "session_ok s1" by simp
    from Cons.IH[OF this] Inr show ?thesis
      by (auto split: sum.splits)
  qed
qed

lemma setup_partial_shaped:
  assumes "0 < Partial_numBreakpoints it"
  shows "shaped (setup_partial F it)"
proof -
  have "1 \<le> length it"
    using assms by (simp add: Partial_numBreakpoints_def Suc_le_eq)
  then show ?thesis
    by (simp add: shaped_def setup_partial_def Let_def Partial_numBreakpoints_def
        initial_state_def NoBreakpointProcessed_def)
qed

lemma setup_ok: "session_ok (rts_setup ps pitch0 s)"
proof -
  have "\<forall>p \<in> set (partials (rts_setup ps pitch0 s)). shaped p"
    by (auto simp: partials_rts_setup intro: setup_partial_shaped)
  moreover have "partialIdx (rts_setup ps pitch0 s) = 0"
    "partialsBeingProcessed (rts_setup ps pitch0 s) = []"
    by (simp_all add: rts_setup_def reset_def)
  ultimately show ?thesis by (simp add: session_ok_def)
qed

text \<open>
  C10. Every Render Partial that \<^verbatim>\<open>setup\<close> produces has at least 3 breakpoints, a
  \<^verbatim>\<open>numBreakpoints\<close> equal to their number, and a start time that is not negative. From
  such a session no sequence of calls of \<^verbatim>\<open>synthesizeNext\<close>, of any sizes and with any
  oscillator, reads outside a vector of breakpoints (the reads of \<^verbatim>\<open>breakpoints[0]\<close> and
  \<^verbatim>\<open>breakpoints[1]\<close> on activation among them); and in every session reached every
  partial still has its 3 breakpoints and makes the test of line 240,
  \<^verbatim>\<open>p.numBreakpoints <= 0 || p.startTime < 0\<close>, false.
\<close>

theorem prepared_partials_in_bounds:
  "(\<forall>p \<in> set (partials (rts_setup ps pitch0 s)).
       3 \<le> length (breakpoints p) \<and> numBreakpoints p = int (length (breakpoints p))
       \<and> 0 \<le> startTime p)
   \<and> renderBlocks ptr osc ns (rts_setup ps pitch0 s) \<noteq> Inl OutOfRangeRead
   \<and> (\<forall>outs s'. renderBlocks ptr osc ns (rts_setup ps pitch0 s) = Inr (outs, s')
        \<longrightarrow> (\<forall>p \<in> set (partials s').
               3 \<le> length (breakpoints p) \<and> \<not> (numBreakpoints p \<le> 0 \<or> startTime p < 0)))"
proof -
  have a: "session_ok (rts_setup ps pitch0 s)"
    by (rule setup_ok)
  have b: "\<And>t p. session_ok t \<Longrightarrow> p \<in> set (partials t)
      \<Longrightarrow> 3 \<le> length (breakpoints p) \<and> numBreakpoints p = int (length (breakpoints p))
          \<and> 0 \<le> startTime p \<and> \<not> (numBreakpoints p \<le> 0 \<or> startTime p < 0)"
    by (auto simp: session_ok_def shaped_def)
  show ?thesis
    using renderBlocks_ok[OF a, of ptr osc ns] b[OF a] b by blast
qed

text \<open>At a list of an empty partial and a partial of one breakpoint, rendered in blocks
  of 3 and 1 samples.\<close>

theorem prepared_partials_in_bounds_witness:
  "3 \<le> length (breakpoints (partials (rts_setup [[], [(2, tone)]] 440 (new_synth 1 2 window8)) ! 0))
   \<and> 0 \<le> startTime (partials (rts_setup [[], [(2, tone)]] 440 (new_synth 1 2 window8)) ! 0)
   \<and> renderBlocks 4 (ref_osc (\<lambda>ph. ph)) [3, 1]
        (rts_setup [[], [(2, tone)]] 440 (new_synth 1 2 window8)) \<noteq> Inl OutOfRangeRead
   \<and> (\<exists>outs s'. renderBlocks 4 (ref_osc (\<lambda>ph. ph)) [3, 1]
                    (rts_setup [[], [(2, tone)]] 440 (new_synth 1 2 window8)) = Inr (outs, s')
          \<and> 3 \<le> length (breakpoints (partials s' ! 0))
          \<and> \<not> (numBreakpoints (partials s' ! 0) \<le> 0 \<or> startTime (partials s' ! 0) < 0))"
proof -
  define S0 where "S0 = rts_setup [[], [(2, tone)]] 440 (new_synth 1 2 window8)"
  define R where "R = renderBlocks 4 (ref_osc (\<lambda>ph. ph)) [3, 1] S0"
  note T = prepared_partials_in_bounds[of "[[], [(2, tone)]]" 440 "new_synth 1 2 window8"
      4 "ref_osc (\<lambda>ph. ph)" "[3, 1]", folded S0_def, folded R_def]
  have "0 < length (partials S0)"
    unfolding S0_def by code_simp
  then have m0: "partials S0 ! 0 \<in> set (partials S0)"
    by simp
  have "case R of Inl e \<Rightarrow> False | Inr r \<Rightarrow> 0 < length (partials (snd r))"
    unfolding R_def S0_def by code_simp
  then obtain outs s' where e: "R = Inr (outs, s')" and "0 < length (partials s')"
    by (cases R) auto
  then have m1: "partials s' ! 0 \<in> set (partials s')"
    by simp
  from T m0 e m1 show ?thesis
    unfolding S0_def[symmetric] R_def[symmetric] by blast
qed

section \<open>A window that is too small\<close>



section \<open>The cursors of a partial\<close>

text \<open>The cursors of a partial do not go back from \<open>p\<close> to \<open>p'\<close>, and the number of
  breakpoints is the same.\<close>

definition advanced :: "PartialStruct \<Rightarrow> PartialStruct \<Rightarrow> bool" where
  "advanced p p' =
     (currentSamp (state p) \<le> currentSamp (state p')
      \<and> lastBreakpointIdx (state p) \<le> lastBreakpointIdx (state p')
      \<and> numBreakpoints p' = numBreakpoints p)"

lemma advanced_refl [simp]: "advanced p p"
  by (simp add: advanced_def)








text \<open>The sessions that \<^verbatim>\<open>setup\<close>, \<^verbatim>\<open>reset\<close>, \<^verbatim>\<open>setSampleRate\<close> and calls of
  \<^verbatim>\<open>synthesizeNext\<close> that have a defined result lead to.\<close>

inductive reachable :: "nat \<Rightarrow> 'o Oscillator \<Rightarrow> 'o RealTimeSynthesizer \<Rightarrow> bool"
  for ptr :: nat and osc :: "'o Oscillator" where
  after_setup: "reachable ptr osc (rts_setup ps pitch0 s)"
| after_reset: "reachable ptr osc s \<Longrightarrow> reachable ptr osc (reset s)"
| after_rate: "reachable ptr osc s \<Longrightarrow> reachable ptr osc (setSampleRate rate s)"
| after_block: "reachable ptr osc s \<Longrightarrow> synthesizeNext ptr osc samples s = Inr s'
                \<Longrightarrow> reachable ptr osc s'"




end
